theory Spec2Isabelle
  imports Complex_Main
begin

section \<open>The frame controller of the speed-snooker timer\<close>

text \<open>
  The embedding follows class \<open>FrameController\<close> of \<open>ALPHA_TEST.py\<close> (the same class,
  up to comments, is repeated in \<open>BETA_TEST.py\<close>, \<open>pi_test.py\<close> and \<open>pi_test_2.py\<close>).

  The object is a record; every method takes the record and returns the updated one.
  The methods read \<open>time.monotonic()\<close>; the value read is an explicit argument \<open>now\<close>.
  Clock readings and the accumulator are Python floats; they are modelled as reals, so
  the arithmetic on them is exact. The two countdowns are Python ints, modelled as \<open>int\<close>.
\<close>

subsection \<open>Constants\<close>

definition FINAL_PHASE_SECONDS :: int where
  "FINAL_PHASE_SECONDS = 5 * 60"

definition SHOT_CLOCK_NORMAL_SECONDS :: int where
  "SHOT_CLOCK_NORMAL_SECONDS = 15"

definition SHOT_CLOCK_FINAL_SECONDS :: int where
  "SHOT_CLOCK_FINAL_SECONDS = 10"

subsection \<open>State\<close>

text \<open>
  The fields \<open>_last_tick\<close>, \<open>_accum\<close> and \<open>_prev_shot_remaining\<close> of the source lose their
  leading underscore.
\<close>

record controller =
  frame_remaining :: int
  shot_remaining :: int
  running :: bool
  last_tick :: real
  accum :: real
  prev_shot_remaining :: int

text \<open>Python's \<open>int(x)\<close> on a float truncates towards zero.\<close>

definition py_int :: "real \<Rightarrow> int" where
  "py_int x = (if 0 \<le> x then \<lfloor>x\<rfloor> else \<lceil>x\<rceil>)"

subsection \<open>Methods\<close>

text \<open>\<open>__init__(frame_total_seconds)\<close>, with the clock reading \<open>now\<close>.\<close>

definition init :: "int \<Rightarrow> real \<Rightarrow> controller" where
  "init frame_total_seconds now =
     \<lparr> frame_remaining = frame_total_seconds,
       shot_remaining = 0,
       running = False,
       last_tick = now,
       accum = 0,
       prev_shot_remaining = 0 \<rparr>"

definition current_shot_length :: "controller \<Rightarrow> int" where
  "current_shot_length s =
     (if frame_remaining s \<le> FINAL_PHASE_SECONDS then SHOT_CLOCK_FINAL_SECONDS
      else SHOT_CLOCK_NORMAL_SECONDS)"

text \<open>
  \<open>toggle_run\<close>: the clock is read only on the start path, so \<open>now\<close> is unused on the
  two stopping paths.
\<close>

definition toggle_run :: "real \<Rightarrow> controller \<Rightarrow> controller" where
  "toggle_run now s =
     (if frame_remaining s \<le> 0 then
        s\<lparr> running := False, shot_remaining := 0, accum := 0, prev_shot_remaining := 0 \<rparr>
      else if running s then
        s\<lparr> running := False, shot_remaining := 0, accum := 0, prev_shot_remaining := 0 \<rparr>
      else
        s\<lparr> running := True,
           shot_remaining := current_shot_length s,
           prev_shot_remaining := current_shot_length s,
           last_tick := now,
           accum := 0 \<rparr>)"

text \<open>
  \<open>update\<close>, statement by statement: \<open>s1\<close> after \<open>_last_tick = now\<close>, \<open>s2\<close> after
  \<open>_accum += dt\<close>, \<open>s3\<close> after \<open>_accum -= dec\<close>, \<open>s4\<close> and \<open>s5\<close> after the two decrements,
  \<open>s6\<close> after the final-phase clamp; the last line is the auto-stop.
\<close>

definition update :: "real \<Rightarrow> controller \<Rightarrow> controller" where
  "update now s =
     (let dt = now - last_tick s;
          s1 = s\<lparr> last_tick := now \<rparr>
      in if \<not> running s1 then s1
         else
           let s2 = s1\<lparr> accum := accum s1 + dt \<rparr>;
               dec = py_int (accum s2)
           in if dec \<le> 0 then s2
              else
                let s3 = s2\<lparr> accum := accum s2 - of_int dec \<rparr>;
                    s4 = s3\<lparr> frame_remaining := max 0 (frame_remaining s3 - dec) \<rparr>;
                    s5 = s4\<lparr> shot_remaining := max 0 (shot_remaining s4 - dec) \<rparr>;
                    s6 = (if frame_remaining s5 \<le> FINAL_PHASE_SECONDS
                             \<and> shot_remaining s5 > SHOT_CLOCK_FINAL_SECONDS
                          then s5\<lparr> shot_remaining := SHOT_CLOCK_FINAL_SECONDS \<rparr>
                          else s5)
                in if frame_remaining s6 = 0 \<or> shot_remaining s6 = 0
                   then s6\<lparr> running := False, accum := 0 \<rparr>
                   else s6)"

text \<open>
  \<open>shot_changed\<close> returns \<open>(prev, cur)\<close> or \<open>None\<close>, and mutates the object; the model
  returns the result together with the new state.
\<close>

definition shot_changed :: "controller \<Rightarrow> (int \<times> int) option \<times> controller" where
  "shot_changed s =
     (let cur = shot_remaining s;
          prev = prev_shot_remaining s
      in if cur \<noteq> prev then (Some (prev, cur), s\<lparr> prev_shot_remaining := cur \<rparr>)
         else (None, s))"

subsection \<open>Call sequences\<close>

text \<open>
  A caller drives the controller by a sequence of method calls. \<open>run s evs\<close> is the state
  after the calls \<open>evs\<close>, in order, on \<open>s\<close>. The reachable states are the
  \<open>run (init d t0) evs\<close>.
\<close>

datatype event = Toggle real | Update real | Poll

fun step :: "event \<Rightarrow> controller \<Rightarrow> controller" where
  "step (Toggle now) s = toggle_run now s"
| "step (Update now) s = update now s"
| "step Poll s = snd (shot_changed s)"

fun run :: "controller \<Rightarrow> event list \<Rightarrow> controller" where
  "run s [] = s"
| "run s (e # es) = run (step e s) es"

text \<open>
  \<open>clock_ok s evs\<close>: every clock reading in \<open>evs\<close> is at or after the reading the
  controller stored last, as \<open>time.monotonic()\<close> guarantees.
\<close>

fun clock_ok :: "controller \<Rightarrow> event list \<Rightarrow> bool" where
  "clock_ok s [] = True"
| "clock_ok s (Toggle now # es) = (last_tick s \<le> now \<and> clock_ok (toggle_run now s) es)"
| "clock_ok s (Update now # es) = (last_tick s \<le> now \<and> clock_ok (update now s) es)"
| "clock_ok s (Poll # es) = clock_ok (snd (shot_changed s)) es"

text \<open>The calls that are a \<open>toggle_run\<close>.\<close>

fun is_toggle :: "event \<Rightarrow> bool" where
  "is_toggle (Toggle now) = True"
| "is_toggle (Update now) = False"
| "is_toggle Poll = False"

subsection \<open>The invariant of the reachable states\<close>

text \<open>
  A running controller has time left on both clocks; in the final phase the shot clock
  is at most the final shot length; the shot clock is never negative; the accumulator
  is below one second.
\<close>

definition inv :: "controller \<Rightarrow> bool" where
  "inv s =
     ((running s \<longrightarrow> 0 < frame_remaining s \<and> 0 < shot_remaining s)
      \<and> (frame_remaining s \<le> FINAL_PHASE_SECONDS
           \<longrightarrow> shot_remaining s \<le> SHOT_CLOCK_FINAL_SECONDS)
      \<and> 0 \<le> shot_remaining s
      \<and> accum s < 1)"

section \<open>Basic facts\<close>

lemmas consts_defs =
  FINAL_PHASE_SECONDS_def SHOT_CLOCK_NORMAL_SECONDS_def SHOT_CLOCK_FINAL_SECONDS_def

lemmas method_defs =
  init_def toggle_run_def update_def shot_changed_def current_shot_length_def

text \<open>The whole-second count is positive exactly from one second on.\<close>

lemma py_int_le_0_iff: "py_int x \<le> 0 \<longleftrightarrow> x < 1"
proof (cases "0 \<le> x")
  case True
  have "\<lfloor>x\<rfloor> \<le> 0 \<longleftrightarrow> \<lfloor>x\<rfloor> < 1" by arith
  also have "\<dots> \<longleftrightarrow> x < 1" by (simp add: floor_less_iff)
  finally show ?thesis using True by (simp add: py_int_def)
next
  case False
  then have "\<lceil>x\<rceil> \<le> 0" by (simp add: ceiling_le_iff)
  with False show ?thesis by (simp add: py_int_def)
qed

lemma py_int_pos_frac:
  assumes "\<not> py_int x \<le> 0"
  shows "0 \<le> x - of_int (py_int x)" and "x - of_int (py_int x) < 1"
proof -
  from assms have "1 \<le> x" by (simp add: py_int_le_0_iff)
  then have e: "py_int x = \<lfloor>x\<rfloor>" by (simp add: py_int_def)
  show "0 \<le> x - of_int (py_int x)" unfolding e by linarith
  show "x - of_int (py_int x) < 1" unfolding e by linarith
qed

subsection \<open>Every method keeps the invariant\<close>

lemma inv_init: "inv (init d t0)"
  by (simp add: inv_def init_def consts_defs)

lemma inv_toggle_run: "inv s \<Longrightarrow> inv (toggle_run now s)"
  by (simp add: inv_def toggle_run_def current_shot_length_def consts_defs)

lemma inv_update: "inv s \<Longrightarrow> inv (update now s)"
  by (auto simp add: inv_def update_def Let_def consts_defs py_int_le_0_iff py_int_pos_frac)

lemma inv_shot_changed: "inv s \<Longrightarrow> inv (snd (shot_changed s))"
  by (auto simp add: inv_def shot_changed_def Let_def)

lemma inv_step: "inv s \<Longrightarrow> inv (step e s)"
  by (cases e) (simp_all add: inv_toggle_run inv_update inv_shot_changed)

lemma inv_run: "inv s \<Longrightarrow> inv (run s evs)"
  by (induction evs arbitrary: s) (simp_all add: inv_step)

lemma inv_reachable: "inv (run (init d t0) evs)"
  by (rule inv_run [OF inv_init])

subsection \<open>A stopped controller with an expired frame stays so\<close>

lemma stopped_expired_step:
  "frame_remaining s \<le> 0 \<and> \<not> running s \<and> shot_remaining s = 0
   \<Longrightarrow> frame_remaining (step e s) \<le> 0 \<and> \<not> running (step e s)
        \<and> shot_remaining (step e s) = 0"
  by (cases e) (simp_all add: toggle_run_def update_def shot_changed_def Let_def)

lemma stopped_expired_run:
  "frame_remaining s \<le> 0 \<and> \<not> running s \<and> shot_remaining s = 0
   \<Longrightarrow> frame_remaining (run s evs) \<le> 0 \<and> \<not> running (run s evs)
        \<and> shot_remaining (run s evs) = 0"
proof (induction evs arbitrary: s)
  case Nil
  then show ?case by simp
next
  case (Cons e es)
  from Cons.prems
  have "frame_remaining (step e s) \<le> 0 \<and> \<not> running (step e s)
        \<and> shot_remaining (step e s) = 0"
    by (rule stopped_expired_step)
  then show ?case using Cons.IH [of "step e s"] by simp
qed

section \<open>The claims\<close>

subsection \<open>Change notification\<close>

text \<open>
  Claim C5. \<open>shot_changed\<close> returns the pair (previous, current) exactly when
  \<open>shot_remaining\<close> differs from \<open>prev_shot_remaining\<close>, and \<open>None\<close> otherwise; after the
  call \<open>prev_shot_remaining\<close> holds the current value. A repeated call returns \<open>None\<close>.
  A poll after an \<open>update\<close> that follows a poll reports the change made by that \<open>update\<close>,
  and \<open>None\<close> when it made none: each change of the value is reported once.
\<close>

theorem shot_changed_once:
  "fst (shot_changed s) =
     (if shot_remaining s \<noteq> prev_shot_remaining s
      then Some (prev_shot_remaining s, shot_remaining s) else None)
   \<and> snd (shot_changed s) = s\<lparr> prev_shot_remaining := shot_remaining s \<rparr>
   \<and> fst (shot_changed (snd (shot_changed s))) = None
   \<and> fst (shot_changed (update now (snd (shot_changed s)))) =
       (if shot_remaining (update now (snd (shot_changed s))) \<noteq> shot_remaining s
        then Some (shot_remaining s, shot_remaining (update now (snd (shot_changed s))))
        else None)"
proof -
  have p: "snd (shot_changed s) = s\<lparr> prev_shot_remaining := shot_remaining s \<rparr>"
    by (simp add: shot_changed_def Let_def)
  have u: "prev_shot_remaining (update now t) = prev_shot_remaining t" for t
    by (simp add: update_def Let_def)
  have f: "fst (shot_changed t) =
     (if shot_remaining t \<noteq> prev_shot_remaining t
      then Some (prev_shot_remaining t, shot_remaining t) else None)" for t
    by (simp add: shot_changed_def Let_def)
  have a: "fst (shot_changed (snd (shot_changed s))) = None"
    by (simp add: f p)
  have "prev_shot_remaining (update now (snd (shot_changed s))) = shot_remaining s"
    by (simp add: u p)
  then have b: "fst (shot_changed (update now (snd (shot_changed s)))) =
       (if shot_remaining (update now (snd (shot_changed s))) \<noteq> shot_remaining s
        then Some (shot_remaining s, shot_remaining (update now (snd (shot_changed s))))
        else None)"
    by (simp add: f)
  from f [of s] p a b show ?thesis by blast
qed

subsection \<open>Toggle\<close>

text \<open>
  Claim C6. In a state that is running with frame time left, \<open>toggle_run\<close> stops the
  run: \<open>running\<close> is false, \<open>shot_remaining\<close> and \<open>prev_shot_remaining\<close> are 0 whatever the
  shot clock showed, and the \<open>shot_changed\<close> call that follows returns \<open>None\<close>.
\<close>

theorem manual_stop_suppresses_cue:
  "running s \<Longrightarrow> 0 < frame_remaining s \<Longrightarrow>
     \<not> running (toggle_run now s)
     \<and> shot_remaining (toggle_run now s) = 0
     \<and> prev_shot_remaining (toggle_run now s) = 0
     \<and> fst (shot_changed (toggle_run now s)) = None"
  by (simp add: toggle_run_def shot_changed_def Let_def)

theorem manual_stop_suppresses_cue_witness:
  "running (run (init 330 0) [Toggle 0, Update 14])
   \<and> 0 < frame_remaining (run (init 330 0) [Toggle 0, Update 14])
   \<and> shot_remaining (run (init 330 0) [Toggle 0, Update 14]) = 1
   \<and> shot_remaining (toggle_run 14 (run (init 330 0) [Toggle 0, Update 14])) = 0
   \<and> fst (shot_changed (toggle_run 14 (run (init 330 0) [Toggle 0, Update 14]))) = None"
  using manual_stop_suppresses_cue [of "run (init 330 0) [Toggle 0, Update 14]" 14]
  by (simp add: method_defs consts_defs py_int_def Let_def)

text \<open>
  Claim C8. When \<open>frame_remaining\<close> is 0 or below, \<open>toggle_run\<close> leaves \<open>running\<close> false
  whatever the state was, and sets \<open>shot_remaining\<close>, the accumulator and
  \<open>prev_shot_remaining\<close> to 0. No later sequence of calls makes the controller run again.
\<close>

theorem toggle_refused_after_frame_end:
  "frame_remaining s \<le> 0 \<Longrightarrow>
     \<not> running (toggle_run now s)
     \<and> shot_remaining (toggle_run now s) = 0
     \<and> accum (toggle_run now s) = 0
     \<and> prev_shot_remaining (toggle_run now s) = 0
     \<and> \<not> running (run (toggle_run now s) evs)"
proof -
  assume f: "frame_remaining s \<le> 0"
  then have t: "toggle_run now s =
      s\<lparr> running := False, shot_remaining := 0, accum := 0, prev_shot_remaining := 0 \<rparr>"
    by (simp add: toggle_run_def)
  have "frame_remaining (toggle_run now s) \<le> 0 \<and> \<not> running (toggle_run now s)
        \<and> shot_remaining (toggle_run now s) = 0"
    using f by (simp add: t)
  then have "\<not> running (run (toggle_run now s) evs)"
    using stopped_expired_run [of "toggle_run now s" evs] by simp
  then show ?thesis by (simp add: t)
qed

theorem toggle_refused_after_frame_end_witness:
  "frame_remaining (run (init 5 0) [Toggle 0, Update 5]) \<le> 0
   \<and> shot_remaining (run (init 5 0) [Toggle 0, Update 5]) = 5
   \<and> \<not> running (toggle_run 6 (run (init 5 0) [Toggle 0, Update 5]))
   \<and> shot_remaining (toggle_run 6 (run (init 5 0) [Toggle 0, Update 5])) = 0
   \<and> accum (toggle_run 6 (run (init 5 0) [Toggle 0, Update 5])) = 0
   \<and> prev_shot_remaining (toggle_run 6 (run (init 5 0) [Toggle 0, Update 5])) = 0
   \<and> \<not> running (run (toggle_run 6 (run (init 5 0) [Toggle 0, Update 5]))
                     [Update 7, Toggle 8, Poll])"
  using toggle_refused_after_frame_end
    [of "run (init 5 0) [Toggle 0, Update 5]" 6 "[Update 7, Toggle 8, Poll]"]
  by (simp add: method_defs consts_defs py_int_def Let_def)

text \<open>
  Claim C10. A \<open>toggle_run\<close> that starts a run (frame time left, not running) sets
  \<open>shot_remaining\<close> to the current shot length and \<open>prev_shot_remaining\<close> to the same
  value, so the \<open>shot_changed\<close> call that follows returns \<open>None\<close>.
\<close>

theorem start_emits_no_notification:
  "0 < frame_remaining s \<Longrightarrow> \<not> running s \<Longrightarrow>
     running (toggle_run now s)
     \<and> shot_remaining (toggle_run now s) = current_shot_length s
     \<and> prev_shot_remaining (toggle_run now s) = shot_remaining (toggle_run now s)
     \<and> fst (shot_changed (toggle_run now s)) = None"
  by (simp add: toggle_run_def shot_changed_def Let_def)

theorem start_emits_no_notification_witness:
  "0 < frame_remaining (init 330 0) \<and> \<not> running (init 330 0)
   \<and> running (toggle_run 2 (init 330 0))
   \<and> shot_remaining (toggle_run 2 (init 330 0)) = 15
   \<and> prev_shot_remaining (toggle_run 2 (init 330 0)) = 15
   \<and> fst (shot_changed (toggle_run 2 (init 330 0))) = None"
  using start_emits_no_notification [of "init 330 0" 2]
  by (simp add: method_defs consts_defs Let_def)

subsection \<open>Update\<close>

text \<open>
  Claim C9. In a state that is not running, \<open>update\<close> stores the clock reading in
  \<open>last_tick\<close> and changes no other field.
\<close>

theorem update_paused:
  "\<not> running s \<Longrightarrow> update now s = s\<lparr> last_tick := now \<rparr>"
  by (simp add: update_def Let_def)

theorem update_paused_witness:
  "\<not> running (init 330 0) \<and> update 7 (init 330 0) = (init 330 0)\<lparr> last_tick := 7 \<rparr>"
  using update_paused [of "init 330 0" 7] by (simp add: init_def)

text \<open>
  Claim C7. In every reachable state, an \<open>update\<close> whose clock reading equals \<open>last_tick\<close>
  changes neither \<open>frame_remaining\<close> nor \<open>shot_remaining\<close>, and the second of two \<open>update\<close>
  calls with the same reading \<open>t\<close> changes neither: the accumulator of a reachable state
  is below 1, so a zero delta gives a whole-second count of 0. This holds for every call
  sequence, in particular for those with non-decreasing clock readings.
\<close>

theorem update_zero_elapsed:
  "frame_remaining (update (last_tick (run (init d t0) evs)) (run (init d t0) evs))
     = frame_remaining (run (init d t0) evs)
   \<and> shot_remaining (update (last_tick (run (init d t0) evs)) (run (init d t0) evs))
     = shot_remaining (run (init d t0) evs)
   \<and> frame_remaining (update t (update t (run (init d t0) evs)))
     = frame_remaining (update t (run (init d t0) evs))
   \<and> shot_remaining (update t (update t (run (init d t0) evs)))
     = shot_remaining (update t (run (init d t0) evs))"
proof -
  have z: "frame_remaining (update (last_tick s) s) = frame_remaining s
           \<and> shot_remaining (update (last_tick s) s) = shot_remaining s" if "inv s" for s
    using that by (simp add: inv_def update_def Let_def py_int_le_0_iff)
  have l: "last_tick (update t s) = t" for s
    by (simp add: update_def Let_def)
  have i: "inv (run (init d t0) evs)" by (rule inv_reachable)
  then have "inv (update t (run (init d t0) evs))" by (rule inv_update)
  from z [OF this] z [OF i] show ?thesis by (simp add: l)
qed

subsection \<open>Auto-stop\<close>

lemma paused_step_no_toggle:
  "\<not> running s \<Longrightarrow> \<not> is_toggle e \<Longrightarrow>
   \<not> running (step e s) \<and> frame_remaining (step e s) = frame_remaining s
   \<and> shot_remaining (step e s) = shot_remaining s"
  by (cases e) (simp_all add: update_def shot_changed_def Let_def)

lemma paused_run_no_toggle:
  "\<not> running s \<Longrightarrow> \<forall>e \<in> set evs. \<not> is_toggle e \<Longrightarrow>
   \<not> running (run s evs) \<and> frame_remaining (run s evs) = frame_remaining s
   \<and> shot_remaining (run s evs) = shot_remaining s"
proof (induction evs arbitrary: s)
  case Nil
  then show ?case by simp
next
  case (Cons e es)
  from Cons.prems have "\<not> is_toggle e" by simp
  with Cons.prems(1)
  have "\<not> running (step e s) \<and> frame_remaining (step e s) = frame_remaining s
        \<and> shot_remaining (step e s) = shot_remaining s"
    by (rule paused_step_no_toggle)
  moreover from Cons.prems have "\<forall>e \<in> set es. \<not> is_toggle e" by simp
  ultimately show ?case using Cons.IH [of "step e s"] by simp
qed

lemma update_reaching_zero_stops:
  "(frame_remaining (update now s) = 0 \<and> frame_remaining s \<noteq> 0)
     \<or> (shot_remaining (update now s) = 0 \<and> shot_remaining s \<noteq> 0)
   \<Longrightarrow> \<not> running (update now s) \<and> accum (update now s) = 0"
  by (auto simp add: update_def Let_def consts_defs split: if_splits)

text \<open>
  Claim C4. If an \<open>update\<close> call brings \<open>frame_remaining\<close> or \<open>shot_remaining\<close> to 0 (the
  value is 0 after the call and was not before), the call sets \<open>running\<close> to false and the
  accumulator to 0, and every later sequence of calls without a \<open>toggle_run\<close> leaves
  \<open>frame_remaining\<close> and \<open>shot_remaining\<close> as they are, whatever clock readings it supplies.
\<close>

theorem auto_stop_is_final:
  "(frame_remaining (update now s) = 0 \<and> frame_remaining s \<noteq> 0)
     \<or> (shot_remaining (update now s) = 0 \<and> shot_remaining s \<noteq> 0)
   \<Longrightarrow> \<forall>e \<in> set evs. \<not> is_toggle e
   \<Longrightarrow> \<not> running (update now s)
       \<and> accum (update now s) = 0
       \<and> frame_remaining (run (update now s) evs) = frame_remaining (update now s)
       \<and> shot_remaining (run (update now s) evs) = shot_remaining (update now s)"
proof -
  assume z: "(frame_remaining (update now s) = 0 \<and> frame_remaining s \<noteq> 0)
     \<or> (shot_remaining (update now s) = 0 \<and> shot_remaining s \<noteq> 0)"
    and n: "\<forall>e \<in> set evs. \<not> is_toggle e"
  from z have a: "\<not> running (update now s) \<and> accum (update now s) = 0"
    by (rule update_reaching_zero_stops)
  then have "\<not> running (update now s)" by simp
  from paused_run_no_toggle [OF this n] a show ?thesis by simp
qed

theorem auto_stop_is_final_witness:
  "shot_remaining (update 16 (run (init 330 0) [Toggle 0])) = 0
   \<and> shot_remaining (run (init 330 0) [Toggle 0]) \<noteq> 0
   \<and> \<not> is_toggle (Update 20) \<and> \<not> is_toggle Poll \<and> \<not> is_toggle (Update 500)
   \<and> \<not> running (update 16 (run (init 330 0) [Toggle 0]))
   \<and> accum (update 16 (run (init 330 0) [Toggle 0])) = 0
   \<and> frame_remaining (run (update 16 (run (init 330 0) [Toggle 0]))
        [Update 20, Poll, Update 500]) = 314
   \<and> shot_remaining (run (update 16 (run (init 330 0) [Toggle 0]))
        [Update 20, Poll, Update 500]) = 0"
  using auto_stop_is_final [of 16 "run (init 330 0) [Toggle 0]" "[Update 20, Poll, Update 500]"]
  by (simp add: method_defs consts_defs py_int_def Let_def)

subsection \<open>The final phase\<close>

lemma final_phase_step:
  "inv s \<Longrightarrow> frame_remaining s \<le> FINAL_PHASE_SECONDS
   \<Longrightarrow> frame_remaining (step e s) \<le> FINAL_PHASE_SECONDS"
  by (cases e)
     (auto simp add: inv_def toggle_run_def update_def shot_changed_def Let_def consts_defs)

lemma final_phase_run:
  "inv s \<Longrightarrow> frame_remaining s \<le> FINAL_PHASE_SECONDS
   \<Longrightarrow> frame_remaining (run s evs) \<le> FINAL_PHASE_SECONDS"
proof (induction evs arbitrary: s)
  case Nil
  then show ?case by simp
next
  case (Cons e es)
  have "inv (step e s)" using Cons.prems(1) by (rule inv_step)
  moreover have "frame_remaining (step e s) \<le> FINAL_PHASE_SECONDS"
    using Cons.prems by (rule final_phase_step)
  ultimately show ?case using Cons.IH [of "step e s"] by simp
qed

text \<open>What \<open>toggle_run\<close> and \<open>update\<close> leave on the shot clock, in any state.\<close>

lemma toggle_run_shot_remaining:
  "shot_remaining (toggle_run now s) =
     (if frame_remaining s \<le> 0 \<or> running s then 0
      else if frame_remaining s \<le> FINAL_PHASE_SECONDS then SHOT_CLOCK_FINAL_SECONDS
      else SHOT_CLOCK_NORMAL_SECONDS)"
  by (simp add: toggle_run_def current_shot_length_def)

lemma update_shot_remaining:
  "shot_remaining (update now s) =
     (if running s \<and> 0 < py_int (accum s + (now - last_tick s)) then
        if frame_remaining (update now s) \<le> FINAL_PHASE_SECONDS
        then min SHOT_CLOCK_FINAL_SECONDS
               (max 0 (shot_remaining s - py_int (accum s + (now - last_tick s))))
        else max 0 (shot_remaining s - py_int (accum s + (now - last_tick s)))
      else shot_remaining s)"
  by (auto simp add: update_def Let_def consts_defs)

text \<open>
  Claim C3. In a reachable state with \<open>frame_remaining\<close> at or below
  \<open>FINAL_PHASE_SECONDS\<close>, \<open>shot_remaining\<close> is at most \<open>SHOT_CLOCK_FINAL_SECONDS\<close>, and
  both bounds hold in every state reached from it by further calls. A \<open>toggle_run\<close> that
  starts a run in the final phase sets the shot clock to \<open>SHOT_CLOCK_FINAL_SECONDS\<close>. An
  \<open>update\<close> that decrements leaves the decremented shot clock, cut to
  \<open>SHOT_CLOCK_FINAL_SECONDS\<close> when the frame clock it leaves is in the final phase: the
  clamp changes the value only when it exceeds \<open>SHOT_CLOCK_FINAL_SECONDS\<close>.
\<close>

theorem final_phase_shot_bound:
  "(frame_remaining (run (init d t0) evs) \<le> FINAL_PHASE_SECONDS \<longrightarrow>
      shot_remaining (run (init d t0) evs) \<le> SHOT_CLOCK_FINAL_SECONDS
      \<and> frame_remaining (run (run (init d t0) evs) evs') \<le> FINAL_PHASE_SECONDS
      \<and> shot_remaining (run (run (init d t0) evs) evs') \<le> SHOT_CLOCK_FINAL_SECONDS)
   \<and> shot_remaining (toggle_run now s) =
       (if frame_remaining s \<le> 0 \<or> running s then 0
        else if frame_remaining s \<le> FINAL_PHASE_SECONDS then SHOT_CLOCK_FINAL_SECONDS
        else SHOT_CLOCK_NORMAL_SECONDS)
   \<and> shot_remaining (update now s) =
       (if running s \<and> 0 < py_int (accum s + (now - last_tick s)) then
          if frame_remaining (update now s) \<le> FINAL_PHASE_SECONDS
          then min SHOT_CLOCK_FINAL_SECONDS
                 (max 0 (shot_remaining s - py_int (accum s + (now - last_tick s))))
          else max 0 (shot_remaining s - py_int (accum s + (now - last_tick s)))
        else shot_remaining s)"
proof -
  have "shot_remaining (run (init d t0) evs) \<le> SHOT_CLOCK_FINAL_SECONDS
      \<and> frame_remaining (run (run (init d t0) evs) evs') \<le> FINAL_PHASE_SECONDS
      \<and> shot_remaining (run (run (init d t0) evs) evs') \<le> SHOT_CLOCK_FINAL_SECONDS"
    if f: "frame_remaining (run (init d t0) evs) \<le> FINAL_PHASE_SECONDS"
  proof -
    have i: "inv (run (init d t0) evs)" by (rule inv_reachable)
    from i f have a: "shot_remaining (run (init d t0) evs) \<le> SHOT_CLOCK_FINAL_SECONDS"
      by (simp add: inv_def)
    from i f have b: "frame_remaining (run (run (init d t0) evs) evs') \<le> FINAL_PHASE_SECONDS"
      by (rule final_phase_run)
    have "inv (run (run (init d t0) evs) evs')" using i by (rule inv_run)
    with b have "shot_remaining (run (run (init d t0) evs) evs') \<le> SHOT_CLOCK_FINAL_SECONDS"
      by (simp add: inv_def)
    with a b show ?thesis by simp
  qed
  with toggle_run_shot_remaining [of now s] update_shot_remaining [of now s]
  show ?thesis by blast
qed

theorem final_phase_shot_bound_witness:
  "frame_remaining (run (init 302 0) [Toggle 0, Update 3]) \<le> FINAL_PHASE_SECONDS
   \<and> frame_remaining (run (init 302 0) [Toggle 0]) = 302
   \<and> shot_remaining (run (init 302 0) [Toggle 0]) = 15
   \<and> frame_remaining (run (init 302 0) [Toggle 0, Update 3]) = 299
   \<and> shot_remaining (run (init 302 0) [Toggle 0, Update 3]) = 10
   \<and> shot_remaining (run (init 302 0) [Toggle 0, Update 3]) \<le> SHOT_CLOCK_FINAL_SECONDS
   \<and> shot_remaining (run (run (init 302 0) [Toggle 0, Update 3]) [Toggle 4, Toggle 5, Update 7])
       \<le> SHOT_CLOCK_FINAL_SECONDS
   \<and> shot_remaining (run (run (init 302 0) [Toggle 0, Update 3]) [Toggle 4, Toggle 5, Update 7]) = 8"
  using final_phase_shot_bound [of 302 0 "[Toggle 0, Update 3]" "[Toggle 4, Toggle 5, Update 7]"]
  by (simp add: method_defs consts_defs py_int_def Let_def)

subsection \<open>A backwards clock\<close>

text \<open>
  With non-decreasing clock readings the accumulator of a reachable state lies in the
  interval from 0 to 1, 1 excluded.
\<close>

lemma py_int_pos_le: "\<not> py_int x \<le> 0 \<Longrightarrow> real_of_int (py_int x) \<le> x"
  using py_int_pos_frac(1) [of x] by simp

lemma accum_nonneg_step:
  "0 \<le> accum s \<Longrightarrow> clock_ok s [e] \<Longrightarrow> 0 \<le> accum (step e s)"
  by (cases e)
     (auto simp add: toggle_run_def update_def shot_changed_def Let_def py_int_pos_le)

lemma accum_nonneg_run:
  "0 \<le> accum s \<Longrightarrow> clock_ok s evs \<Longrightarrow> 0 \<le> accum (run s evs)"
proof (induction evs arbitrary: s)
  case Nil
  then show ?case by simp
next
  case (Cons e es)
  from Cons.prems have "clock_ok s [e]" by (cases e) simp_all
  with Cons.prems(1) have "0 \<le> accum (step e s)" by (rule accum_nonneg_step)
  moreover from Cons.prems have "clock_ok (step e s) es" by (cases e) simp_all
  ultimately show ?case using Cons.IH [of "step e s"] by simp
qed

lemma accum_range_monotone_clock:
  "clock_ok (init d t0) evs \<Longrightarrow>
   0 \<le> accum (run (init d t0) evs) \<and> accum (run (init d t0) evs) < 1"
  using accum_nonneg_run [of "init d t0" evs] inv_reachable [of d t0 evs]
  by (simp add: inv_def init_def)

text \<open>
  Claim C2, as stated: an \<open>update\<close> with a clock reading before \<open>last_tick\<close> gives a
  whole-second count of 0, changes neither countdown, and leaves the accumulator in the
  interval from 0 to 1, never negative. The statement fails on the accumulator and on
  the count: right after a start at reading 10, with the accumulator at 0, an
  \<open>update\<close> at reading 7 computes the count \<open>int(-3.0) = -3\<close> and leaves the accumulator
  at -3.
\<close>

theorem backwards_clock_counterexample:
  "(7::real) < last_tick (run (init 330 0) [Toggle 10])
   \<and> 0 \<le> accum (run (init 330 0) [Toggle 10])
   \<and> accum (run (init 330 0) [Toggle 10]) < 1
   \<and> py_int (accum (run (init 330 0) [Toggle 10])
              + (7 - last_tick (run (init 330 0) [Toggle 10]))) = - 3
   \<and> accum (update 7 (run (init 330 0) [Toggle 10])) = - 3
   \<and> \<not> 0 \<le> accum (update 7 (run (init 330 0) [Toggle 10]))"
  by (simp add: method_defs consts_defs py_int_def Let_def)

text \<open>
  Claim C2, amended. In a reachable state, an \<open>update\<close> with a clock reading before
  \<open>last_tick\<close> computes a whole-second count that is 0 or negative and returns at the
  guard \<open>dec <= 0\<close>: neither \<open>frame_remaining\<close> nor \<open>shot_remaining\<close> changes. The
  accumulator stays below 1; when the controller is running it becomes the old
  accumulator plus the negative delta, and it is unchanged when the controller is not
  running.
\<close>

theorem backwards_clock_ignored:
  "now < last_tick (run (init d t0) evs) \<Longrightarrow>
     py_int (accum (run (init d t0) evs) + (now - last_tick (run (init d t0) evs))) \<le> 0
     \<and> frame_remaining (update now (run (init d t0) evs))
         = frame_remaining (run (init d t0) evs)
     \<and> shot_remaining (update now (run (init d t0) evs))
         = shot_remaining (run (init d t0) evs)
     \<and> accum (update now (run (init d t0) evs)) =
         (if running (run (init d t0) evs)
          then accum (run (init d t0) evs) + (now - last_tick (run (init d t0) evs))
          else accum (run (init d t0) evs))
     \<and> accum (update now (run (init d t0) evs)) < 1"
proof -
  assume b: "now < last_tick (run (init d t0) evs)"
  have g: "now < last_tick s \<Longrightarrow> accum s < 1 \<Longrightarrow>
     py_int (accum s + (now - last_tick s)) \<le> 0
     \<and> frame_remaining (update now s) = frame_remaining s
     \<and> shot_remaining (update now s) = shot_remaining s
     \<and> accum (update now s) = (if running s then accum s + (now - last_tick s) else accum s)
     \<and> accum (update now s) < 1" for s
    by (simp add: update_def Let_def py_int_le_0_iff)
  have "inv (run (init d t0) evs)" by (rule inv_reachable)
  then have "accum (run (init d t0) evs) < 1" by (simp add: inv_def)
  with b show ?thesis by (rule g)
qed

theorem backwards_clock_ignored_witness:
  "(7::real) < last_tick (run (init 330 0) [Toggle 10, Update (21/2)])
   \<and> frame_remaining (update 7 (run (init 330 0) [Toggle 10, Update (21/2)])) = 330
   \<and> shot_remaining (update 7 (run (init 330 0) [Toggle 10, Update (21/2)])) = 15
   \<and> accum (update 7 (run (init 330 0) [Toggle 10, Update (21/2)])) = - 3"
  using backwards_clock_ignored [of 7 330 0 "[Toggle 10, Update (21/2)]"]
  by (simp add: method_defs consts_defs py_int_def Let_def)

subsection \<open>The shot clock of a stopped controller\<close>

text \<open>In a reachable state that is not running, one of the two clocks is at 0.\<close>

lemma paused_step:
  "inv s \<Longrightarrow> (\<not> running s \<longrightarrow> shot_remaining s = 0 \<or> frame_remaining s = 0) \<Longrightarrow>
   (\<not> running (step e s) \<longrightarrow> shot_remaining (step e s) = 0 \<or> frame_remaining (step e s) = 0)"
  by (cases e) (auto simp add: inv_def toggle_run_def update_def shot_changed_def Let_def)

lemma paused_run:
  "inv s \<Longrightarrow> (\<not> running s \<longrightarrow> shot_remaining s = 0 \<or> frame_remaining s = 0) \<Longrightarrow>
   (\<not> running (run s evs) \<longrightarrow> shot_remaining (run s evs) = 0 \<or> frame_remaining (run s evs) = 0)"
proof (induction evs arbitrary: s)
  case Nil
  then show ?case by simp
next
  case (Cons e es)
  have "inv (step e s)" using Cons.prems(1) by (rule inv_step)
  moreover have "\<not> running (step e s) \<longrightarrow>
      shot_remaining (step e s) = 0 \<or> frame_remaining (step e s) = 0"
    using Cons.prems by (rule paused_step)
  ultimately show ?case using Cons.IH [of "step e s"] by simp
qed

lemma paused_reachable:
  "\<not> running (run (init d t0) evs) \<Longrightarrow>
   shot_remaining (run (init d t0) evs) = 0 \<or> frame_remaining (run (init d t0) evs) = 0"
  using paused_run [OF inv_init, of d t0 evs] by (simp add: init_def)


text \<open>
  Claim C1: in every reachable state that is not running, \<open>shot_remaining\<close> is 0, also
  after an \<open>update\<close> in which \<open>frame_remaining\<close> reaches 0 while \<open>shot_remaining\<close> is
  positive. The code does not do this. The two stopping paths of \<open>toggle_run\<close> clear the
  shot clock, and the constructor's comment on \<open>shot_remaining\<close> reads "0 means not
  running"; the auto-stop of \<open>update\<close> clears \<open>running\<close> and the accumulator only. In a
  5:30 frame, a shot started with 5 seconds of frame time left gets 10 seconds; 5 seconds
  later the frame clock reaches 0, the run stops, and the shot clock keeps 5. The same
  happens in a frame of 5 seconds that is updated once a second.
\<close>

theorem auto_stop_keeps_shot_clock:
  "\<not> running (run (init 330 0) [Toggle 0, Update 325, Toggle 325, Update 330])
   \<and> frame_remaining (run (init 330 0) [Toggle 0, Update 325, Toggle 325, Update 330]) = 0
   \<and> shot_remaining (run (init 330 0) [Toggle 0, Update 325, Toggle 325, Update 330]) = 5
   \<and> \<not> running (run (init 5 0) [Toggle 0, Update 1, Update 2, Update 3, Update 4, Update 5])
   \<and> frame_remaining
        (run (init 5 0) [Toggle 0, Update 1, Update 2, Update 3, Update 4, Update 5]) = 0
   \<and> shot_remaining
        (run (init 5 0) [Toggle 0, Update 1, Update 2, Update 3, Update 4, Update 5]) = 5"
  by (simp add: method_defs consts_defs py_int_def Let_def)

end
